theory Spec2Isabelle
  imports Main "HOL-Library.Char_ord" "HOL-Library.List_Lexorder"
begin

section \<open>Python strings and the standard-library functions the sources call\<close>

text \<open>
  Python strings are modelled as \<^typ>\<open>string\<close>. The library functions below follow the
  CPython implementations (\<open>str\<close> methods, \<open>posixpath\<close>, \<open>genericpath\<close>, \<open>fnmatch\<close>) on
  ASCII text; paths are POSIX paths.
\<close>

definition startswith :: "string \<Rightarrow> string \<Rightarrow> bool" where
  "startswith s p = (take (length p) s = p)"

definition endswith :: "string \<Rightarrow> string \<Rightarrow> bool" where
  "endswith s p = (length p \<le> length s \<and> drop (length s - length p) s = p)"

text \<open>The characters \<open>str.strip()\<close> removes: tab, LF, VT, FF, CR, FS, GS, RS, US, space.\<close>

definition py_whitespace :: "char list" where
  "py_whitespace = [CHR 0x09, CHR 0x0A, CHR 0x0B, CHR 0x0C, CHR 0x0D,
                    CHR 0x1C, CHR 0x1D, CHR 0x1E, CHR 0x1F, CHR 0x20]"

definition isspace :: "char \<Rightarrow> bool" where
  "isspace c = (c \<in> set py_whitespace)"

definition strip :: "string \<Rightarrow> string" where
  "strip s = rev (dropWhile isspace (rev (dropWhile isspace s)))"

text \<open>The line boundaries of \<open>str.splitlines()\<close>: LF, CR, CR LF, VT, FF, FS, GS, RS.\<close>

definition line_boundaries :: "char list" where
  "line_boundaries = [CHR 0x0A, CHR 0x0D, CHR 0x0B, CHR 0x0C, CHR 0x1C, CHR 0x1D, CHR 0x1E]"

fun splitlines_from :: "string \<Rightarrow> string \<Rightarrow> string list" where
  "splitlines_from cur [] = (if cur = [] then [] else [rev cur])"
| "splitlines_from cur (c # cs) =
     (if c = CHR 0x0D \<and> take 1 cs = [CHR 0x0A] then rev cur # splitlines_from [] (drop 1 cs)
      else if c \<in> set line_boundaries then rev cur # splitlines_from [] cs
      else splitlines_from (c # cur) cs)"

definition splitlines :: "string \<Rightarrow> string list" where
  "splitlines s = splitlines_from [] s"

text \<open>\<open>str.split(sep)\<close> for a one-character separator.\<close>

fun split_on :: "char \<Rightarrow> string \<Rightarrow> string \<Rightarrow> string list" where
  "split_on sep cur [] = [rev cur]"
| "split_on sep cur (c # cs) =
     (if c = sep then rev cur # split_on sep [] cs else split_on sep (c # cur) cs)"

text \<open>\<open>sep.join(xs)\<close>.\<close>

fun join_with :: "string \<Rightarrow> string list \<Rightarrow> string" where
  "join_with sep [] = []"
| "join_with sep [x] = x"
| "join_with sep (x # y # ys) = x @ sep @ join_with sep (y # ys)"

text \<open>\<open>s.rfind(c)\<close> for a character: the last index of \<open>c\<close>, or \<open>-1\<close>.\<close>

fun rfind_from :: "char \<Rightarrow> int \<Rightarrow> int \<Rightarrow> string \<Rightarrow> int" where
  "rfind_from c i best [] = best"
| "rfind_from c i best (x # xs) = rfind_from c (i + 1) (if x = c then i else best) xs"

definition rfind :: "string \<Rightarrow> char \<Rightarrow> int" where
  "rfind s c = rfind_from c 0 (- 1) s"

subsection \<open>posixpath\<close>

definition path_join :: "string \<Rightarrow> string \<Rightarrow> string" where
  "path_join a b =
     (if startswith b ''/'' then b
      else if a = [] \<or> endswith a ''/'' then a @ b
      else a @ ''/'' @ b)"

fun normpath_comps :: "bool \<Rightarrow> string list \<Rightarrow> string list \<Rightarrow> string list" where
  "normpath_comps initial_slashes new_comps [] = new_comps"
| "normpath_comps initial_slashes new_comps (cmp # comps) =
     (if cmp = [] \<or> cmp = ''.'' then normpath_comps initial_slashes new_comps comps
      else if cmp \<noteq> ''..'' \<or> (\<not> initial_slashes \<and> new_comps = [])
              \<or> (new_comps \<noteq> [] \<and> last new_comps = ''..'')
      then normpath_comps initial_slashes (new_comps @ [cmp]) comps
      else if new_comps \<noteq> [] then normpath_comps initial_slashes (butlast new_comps) comps
      else normpath_comps initial_slashes new_comps comps)"

definition normpath :: "string \<Rightarrow> string" where
  "normpath path =
     (if path = [] then ''.''
      else
        let initial_slashes =
              (if startswith path ''/''
               then (if startswith path ''//'' \<and> \<not> startswith path ''///'' then 2 else 1)
               else (0::nat));
            comps = normpath_comps (initial_slashes \<noteq> 0) [] (split_on CHR ''/'' [] path);
            joined = replicate initial_slashes CHR ''/'' @ join_with ''/'' comps
        in if joined = [] then ''.'' else joined)"

definition basename :: "string \<Rightarrow> string" where
  "basename p = drop (nat (rfind p CHR ''/'' + 1)) p"

text \<open>
  \<open>os.path.splitext\<close>: the extension starts at the last dot of the last path component,
  unless that component consists of leading dots only up to it.
\<close>

definition splitext :: "string \<Rightarrow> string \<times> string" where
  "splitext p =
     (let sepIndex = rfind p CHR ''/''; dotIndex = rfind p CHR ''.'' in
      if dotIndex > sepIndex
         \<and> list_ex (\<lambda>c. c \<noteq> CHR ''.'')
              (take (nat (dotIndex - (sepIndex + 1))) (drop (nat (sepIndex + 1)) p))
      then (take (nat dotIndex) p, drop (nat dotIndex) p)
      else (p, []))"

subsection \<open>fnmatch\<close>

text \<open>
  \<open>fnmatch.translate\<close> turns a shell pattern into a regular expression anchored at
  both ends and compiled with the DOTALL flag. The compiled expression is represented
  by its items: \<open>*\<close>, \<open>?\<close>, a literal character, or a bracket set (negated by a leading
  \<open>!\<close>) whose members are single characters and ranges \<open>a-b\<close>. An opening bracket with no
  closing bracket is a literal.
\<close>

datatype glob = GStar | GAny | GLit char | GSet bool string

fun index_of :: "char \<Rightarrow> string \<Rightarrow> nat option" where
  "index_of c [] = None"
| "index_of c (x # xs) =
     (if x = c then Some 0 else (case index_of c xs of None \<Rightarrow> None | Some k \<Rightarrow> Some (Suc k)))"

function fnmatch_translate :: "string \<Rightarrow> glob list" where
  "fnmatch_translate [] = []"
| "fnmatch_translate (c # pat) =
     (if c = CHR ''*'' then GStar # fnmatch_translate pat
      else if c = CHR ''?'' then GAny # fnmatch_translate pat
      else if c = CHR ''['' then
        (let j0 = (if take 1 pat = ''!'' then 1 else 0);
             j1 = (if take 1 (drop j0 pat) = '']'' then j0 + 1 else j0)
         in case index_of CHR '']'' (drop j1 pat) of
              None \<Rightarrow> GLit CHR ''['' # fnmatch_translate pat
            | Some k \<Rightarrow>
                (let stuff = take (j1 + k) pat in
                 (if take 1 stuff = ''!'' then GSet True (drop 1 stuff) else GSet False stuff)
                 # fnmatch_translate (drop (j1 + k + 1) pat)))
      else GLit c # fnmatch_translate pat)"
  by pat_completeness auto
termination
  by (relation "measure length") auto

fun in_stuff :: "string \<Rightarrow> char \<Rightarrow> bool" where
  "in_stuff [] c = False"
| "in_stuff [a] c = (a = c)"
| "in_stuff [a, b] c = (a = c \<or> b = c)"
| "in_stuff (a # m # b # rest) c =
     (if m = CHR ''-'' then (a \<le> c \<and> c \<le> b) \<or> in_stuff rest c
      else a = c \<or> in_stuff (m # b # rest) c)"

text \<open>\<open>rexpr.match(s)\<close> for a translated pattern: the whole of \<open>s\<close> has to match.\<close>

fun rexpr_match :: "glob list \<Rightarrow> string \<Rightarrow> bool" where
  "rexpr_match [] s = (s = [])"
| "rexpr_match (GStar # gs) [] = rexpr_match gs []"
| "rexpr_match (GStar # gs) (c # s) = (rexpr_match gs (c # s) \<or> rexpr_match (GStar # gs) s)"
| "rexpr_match (GAny # gs) [] = False"
| "rexpr_match (GAny # gs) (c # s) = rexpr_match gs s"
| "rexpr_match (GLit x # gs) [] = False"
| "rexpr_match (GLit x # gs) (c # s) = (x = c \<and> rexpr_match gs s)"
| "rexpr_match (GSet neg stuff # gs) [] = False"
| "rexpr_match (GSet neg stuff # gs) (c # s) = ((in_stuff stuff c \<noteq> neg) \<and> rexpr_match gs s)"

section \<open>The skip-list handler (skiplist\_handler.py)\<close>

text \<open>
  The handler's state is the list \<open>__skip\<close> of pairs of a skip line and its compiled
  expression, in the order of the skip file.
\<close>

type_synonym skip_rules = "(string \<times> glob list) list"

definition gen_regex :: "string list \<Rightarrow> skip_rules" where
  "gen_regex skip_lines =
     map (\<lambda>skip_line.
            (skip_line, fnmatch_translate (normpath (strip (drop 1 skip_line)) @ ''*'')))
         skip_lines"

definition valid_skip_line :: "string \<Rightarrow> bool" where
  "valid_skip_line line = (\<not> (length line < 2 \<or> take 1 line \<notin> {''-'', ''+''}))"

definition check_line_format :: "string list \<Rightarrow> string list" where
  "check_line_format skip_lines = filter valid_skip_line skip_lines"

definition skip_file_lines :: "string \<Rightarrow> string list" where
  "skip_file_lines skip_file_content =
     map strip (filter (\<lambda>line. strip line \<noteq> []) (splitlines skip_file_content))"

definition SkipListHandler :: "string \<Rightarrow> skip_rules" where
  "SkipListHandler skip_file_content =
     gen_regex (check_line_format (skip_file_lines skip_file_content))"

definition overwrite_skip_content :: "string list \<Rightarrow> skip_rules" where
  "overwrite_skip_content skip_lines = gen_regex (check_line_format skip_lines)"

text \<open>
  \<open>should_skip\<close>: the loop returns at the first pair whose expression matches. Every line
  in \<open>__skip\<close> passed \<open>__check_line_format\<close>, so \<open>line[0]\<close> exists; \<open>take 1 line\<close> reads it.
\<close>

fun should_skip_loop :: "skip_rules \<Rightarrow> string \<Rightarrow> bool" where
  "should_skip_loop [] source = False"
| "should_skip_loop ((line, rexpr) # rest) source =
     (if rexpr_match rexpr source then take 1 line = ''-''
      else should_skip_loop rest source)"

definition should_skip :: "skip_rules \<Rightarrow> string \<Rightarrow> bool" where
  "should_skip skip source = (if skip = [] then False else should_skip_loop skip source)"

section \<open>Properties of the skip-list handler\<close>

lemma index_of_less: "index_of c xs = Some k \<Longrightarrow> k < length xs"
  by (induction xs arbitrary: k) (auto split: if_splits option.splits)

lemma index_of_append_other:
  "c \<noteq> d \<Longrightarrow> index_of c (xs @ [d]) = index_of c xs"
  by (induction xs) (auto split: option.splits)

lemma take1_drop_append_other:
  "n \<le> length xs \<Longrightarrow> c \<noteq> d \<Longrightarrow> (take 1 (drop n (xs @ [d])) = [c]) = (take 1 (drop n xs) = [c])"
  by (cases "drop n xs") auto

lemma take1_append_other:
  "c \<noteq> d \<Longrightarrow> (take 1 (xs @ [d]) = [c]) = (take 1 xs = [c])"
  using take1_drop_append_other [of 0 xs c d] by simp

lemma take1_singleton_nonempty: "take 1 xs = [c] \<Longrightarrow> xs \<noteq> []"
  by auto

lemma translate_star: "fnmatch_translate (p @ ''*'') = fnmatch_translate p @ [GStar]"
proof (induction p rule: fnmatch_translate.induct)
  case 1
  then show ?case by simp
next
  case (2 c pat)
  define j0 :: nat where "j0 = (if take 1 pat = ''!'' then 1 else 0)"
  define j1 where "j1 = (if take 1 (drop j0 pat) = '']'' then j0 + 1 else j0)"
  have j0_le: "j0 \<le> length pat"
    unfolding j0_def by (cases pat) auto
  have j1_le: "j1 \<le> length pat"
  proof (cases "take 1 (drop j0 pat) = '']''")
    case True
    then have "drop j0 pat \<noteq> []" by auto
    then have "j0 < length pat" by simp
    then show ?thesis unfolding j1_def by simp
  next
    case False
    then show ?thesis unfolding j1_def using j0_le by simp
  qed
  have e0: "(take 1 (pat @ ''*'') = ''!'') = (take 1 pat = ''!'')"
    by (rule take1_append_other) simp
  have e1: "(take 1 (drop j0 (pat @ ''*'')) = '']'') = (take 1 (drop j0 pat) = '']'')"
    by (rule take1_drop_append_other [OF j0_le]) simp
  have idx: "index_of CHR '']'' (drop j1 (pat @ ''*'')) = index_of CHR '']'' (drop j1 pat)"
    using j1_le by (simp add: index_of_append_other)
  have unf: "\<And>q. fnmatch_translate (CHR ''['' # q) =
     (let j0 = (if take 1 q = ''!'' then 1 else 0);
          j1 = (if take 1 (drop j0 q) = '']'' then j0 + 1 else j0)
      in case index_of CHR '']'' (drop j1 q) of
           None \<Rightarrow> GLit CHR ''['' # fnmatch_translate q
         | Some k \<Rightarrow>
             (let stuff = take (j1 + k) q in
              (if take 1 stuff = ''!'' then GSet True (drop 1 stuff) else GSet False stuff)
              # fnmatch_translate (drop (j1 + k + 1) q)))"
    by simp
  have L: "fnmatch_translate (CHR ''['' # pat @ ''*'') =
     (case index_of CHR '']'' (drop j1 pat) of
           None \<Rightarrow> GLit CHR ''['' # fnmatch_translate (pat @ ''*'')
         | Some k \<Rightarrow>
             (let stuff = take (j1 + k) (pat @ ''*'') in
              (if take 1 stuff = ''!'' then GSet True (drop 1 stuff) else GSet False stuff)
              # fnmatch_translate (drop (j1 + k + 1) (pat @ ''*''))))"
    unfolding unf [of "pat @ ''*''"] Let_def e0 e1 j0_def [symmetric] j1_def [symmetric] idx ..
  have R: "fnmatch_translate (CHR ''['' # pat) =
     (case index_of CHR '']'' (drop j1 pat) of
           None \<Rightarrow> GLit CHR ''['' # fnmatch_translate pat
         | Some k \<Rightarrow>
             (let stuff = take (j1 + k) pat in
              (if take 1 stuff = ''!'' then GSet True (drop 1 stuff) else GSet False stuff)
              # fnmatch_translate (drop (j1 + k + 1) pat)))"
    unfolding unf [of pat] Let_def j0_def [symmetric] j1_def [symmetric] ..
  show ?case
  proof (cases "c = CHR ''*'' \<or> c = CHR ''?'' \<or> c \<noteq> CHR ''[''")
    case True
    then show ?thesis using 2 by auto
  next
    case False
    then have c: "c = CHR ''[''" by simp
    show ?thesis
    proof (cases "index_of CHR '']'' (drop j1 pat)")
      case None
      have "fnmatch_translate (pat @ ''*'') = fnmatch_translate pat @ [GStar]"
        using 2(3) [OF _ _ _ j0_def j1_def None] c by simp
      then show ?thesis
        using L R None c by simp
    next
      case (Some k)
      then have k: "j1 + k < length pat"
        using index_of_less [OF Some] by simp
      have ih: "fnmatch_translate (drop (j1 + k + 1) pat @ ''*'')
                  = fnmatch_translate (drop (j1 + k + 1) pat) @ [GStar]"
        using 2(4) [OF _ _ _ j0_def j1_def Some refl] c by simp
      show ?thesis using L R Some c k ih by (simp add: Let_def)
    qed
  qed
qed

lemma match_star_empty: "rexpr_match gs s \<Longrightarrow> rexpr_match (GStar # gs) s"
  by (cases s) auto

lemma match_only_star: "rexpr_match [GStar] v"
  by (induction v) auto

lemma match_star: "rexpr_match gs u \<Longrightarrow> rexpr_match (gs @ [GStar]) (u @ v)"
proof (induction gs u rule: rexpr_match.induct)
  case (1 s)
  then show ?case by (simp add: match_only_star)
next
  case (2 gs)
  then show ?case by (simp add: match_star_empty)
qed auto

lemma should_skip_loop_none:
  "\<forall>i<length skip. \<not> rexpr_match (snd (skip ! i)) source \<Longrightarrow> should_skip_loop skip source = False"
proof (induction skip)
  case Nil
  then show ?case by simp
next
  case (Cons r skip)
  have "\<not> rexpr_match (snd r) source" using Cons.prems by auto
  moreover have "\<forall>i<length skip. \<not> rexpr_match (snd (skip ! i)) source"
    using Cons.prems by auto
  ultimately show ?case using Cons.IH by (cases r) simp
qed

lemma should_skip_loop_first:
  "i < length skip \<Longrightarrow> rexpr_match (snd (skip ! i)) source
   \<Longrightarrow> \<forall>j<i. \<not> rexpr_match (snd (skip ! j)) source
   \<Longrightarrow> should_skip_loop skip source = (take 1 (fst (skip ! i)) = ''-'')"
proof (induction skip arbitrary: i)
  case Nil
  then show ?case by simp
next
  case (Cons r skip)
  show ?case
  proof (cases i)
    case 0
    then show ?thesis using Cons.prems by (cases r) simp
  next
    case (Suc k)
    have r: "\<not> rexpr_match (snd r) source" using Cons.prems(3) Suc by auto
    have "\<forall>j<k. \<not> rexpr_match (snd (skip ! j)) source"
      using Cons.prems(3) Suc by auto
    then have "should_skip_loop skip source = (take 1 (fst (skip ! k)) = ''-'')"
      using Cons.IH [of k] Cons.prems Suc by simp
    then show ?thesis using r Suc by (cases r) simp
  qed
qed

text \<open>
  C3. For every skip list and every candidate path, \<open>should_skip\<close> returns the sign of the
  first rule, in file order, whose pattern matches the path (\<open>True\<close>, skipped, exactly when
  that rule's line starts with \<open>-\<close>), and \<open>False\<close> when no rule matches. The rules of a
  handler are the valid stripped non-blank lines of the skip file, in the file's order.
\<close>

theorem should_skip_first_matching_rule:
  "map fst (SkipListHandler content) = filter valid_skip_line (skip_file_lines content)
   \<and> (\<forall>i<length skip.
         rexpr_match (snd (skip ! i)) source \<and> (\<forall>j<i. \<not> rexpr_match (snd (skip ! j)) source)
         \<longrightarrow> should_skip skip source = (take 1 (fst (skip ! i)) = ''-''))
   \<and> ((\<forall>i<length skip. \<not> rexpr_match (snd (skip ! i)) source)
         \<longrightarrow> should_skip skip source = False)"
proof (intro conjI allI impI)
  show "map fst (SkipListHandler content) = filter valid_skip_line (skip_file_lines content)"
    by (simp add: SkipListHandler_def gen_regex_def check_line_format_def comp_def)
next
  fix i
  assume i: "i < length skip"
    and m: "rexpr_match (snd (skip ! i)) source \<and> (\<forall>j<i. \<not> rexpr_match (snd (skip ! j)) source)"
  then have "skip \<noteq> []" by auto
  then show "should_skip skip source = (take 1 (fst (skip ! i)) = ''-'')"
    using should_skip_loop_first [OF i] m by (simp add: should_skip_def)
next
  assume "\<forall>i<length skip. \<not> rexpr_match (snd (skip ! i)) source"
  then show "should_skip skip source = False"
    using should_skip_loop_none by (simp add: should_skip_def)
qed

theorem should_skip_first_matching_rule_witness:
  "SkipListHandler (''-/vendor/*'' @ [CHR 0x0A] @ ''+/vendor/keep.c'')
     = [(''-/vendor/*'', fnmatch_translate ''/vendor/**''),
        (''+/vendor/keep.c'', fnmatch_translate ''/vendor/keep.c*'')]
   \<and> rexpr_match (fnmatch_translate ''/vendor/**'') ''/vendor/keep.c''
   \<and> rexpr_match (fnmatch_translate ''/vendor/keep.c*'') ''/vendor/keep.c''
   \<and> should_skip (SkipListHandler (''-/vendor/*'' @ [CHR 0x0A] @ ''+/vendor/keep.c''))
        ''/vendor/keep.c'' = True
   \<and> should_skip (SkipListHandler (''-/vendor/*'' @ [CHR 0x0A] @ ''+/vendor/keep.c''))
        ''/src/main.c'' = False"
proof -
  let ?skip = "[(''-/vendor/*'', fnmatch_translate ''/vendor/**''),
                (''+/vendor/keep.c'', fnmatch_translate ''/vendor/keep.c*'')]"
  have h: "SkipListHandler (''-/vendor/*'' @ [CHR 0x0A] @ ''+/vendor/keep.c'') = ?skip"
    by (simp add: SkipListHandler_def gen_regex_def check_line_format_def
        valid_skip_line_def skip_file_lines_def splitlines_def strip_def isspace_def
        py_whitespace_def line_boundaries_def normpath_def startswith_def)
  have m0: "rexpr_match (snd (?skip ! 0)) ''/vendor/keep.c''" by simp
  have m1: "rexpr_match (fnmatch_translate ''/vendor/keep.c*'') ''/vendor/keep.c''" by simp
  have n: "\<forall>i<length ?skip. \<not> rexpr_match (snd (?skip ! i)) ''/src/main.c''"
    by (simp add: less_Suc_eq)
  have l: "0 < length ?skip" by simp
  have f: "rexpr_match (snd (?skip ! 0)) ''/vendor/keep.c''
           \<and> (\<forall>j<0. \<not> rexpr_match (snd (?skip ! j)) ''/vendor/keep.c'')"
    using m0 by blast
  have "should_skip ?skip ''/vendor/keep.c'' = (take 1 (fst (?skip ! 0)) = ''-'')"
    using should_skip_first_matching_rule [of "[]" ?skip "''/vendor/keep.c''"] l f by blast
  moreover have "should_skip ?skip ''/src/main.c'' = False"
    using should_skip_first_matching_rule [of "[]" ?skip "''/src/main.c''"] n by blast
  ultimately show ?thesis using h m0 m1 by simp
qed

text \<open>
  C10. Every skip-list rule matches as a prefix glob. The expression compiled for a rule
  is the translation of its normalized pattern followed by \<open>*\<close>, so the rule matches every
  path that begins with text its normalized pattern matches; the rule \<open>-/dir/a.c\<close> also
  skips \<open>/dir/a.cpp\<close>.
\<close>

theorem skip_rule_is_prefix_glob:
  "(line, rexpr) \<in> set (gen_regex skip_lines) \<Longrightarrow>
     rexpr = fnmatch_translate (normpath (strip (drop 1 line))) @ [GStar]
     \<and> (\<forall>u v. rexpr_match (fnmatch_translate (normpath (strip (drop 1 line)))) u
               \<longrightarrow> rexpr_match rexpr (u @ v))"
  by (auto simp: gen_regex_def translate_star match_star)

theorem skip_rule_is_prefix_glob_witness:
  "(''-/dir/a.c'', fnmatch_translate ''/dir/a.c*'') \<in> set (gen_regex [''-/dir/a.c''])
   \<and> rexpr_match (fnmatch_translate (normpath (strip (drop 1 ''-/dir/a.c'')))) ''/dir/a.c''
   \<and> rexpr_match (fnmatch_translate ''/dir/a.c*'') (''/dir/a.c'' @ ''pp'')
   \<and> should_skip (SkipListHandler ''-/dir/a.c'') ''/dir/a.cpp''"
proof -
  have g: "gen_regex [''-/dir/a.c''] = [(''-/dir/a.c'', fnmatch_translate ''/dir/a.c*'')]"
    by (simp add: gen_regex_def strip_def isspace_def py_whitespace_def normpath_def
        startswith_def)
  then have mem: "(''-/dir/a.c'', fnmatch_translate ''/dir/a.c*'') \<in> set (gen_regex [''-/dir/a.c''])"
    by simp
  have p: "rexpr_match (fnmatch_translate (normpath (strip (drop 1 ''-/dir/a.c'')))) ''/dir/a.c''"
    by (simp add: strip_def isspace_def py_whitespace_def normpath_def startswith_def)
  have m: "rexpr_match (fnmatch_translate ''/dir/a.c*'') (''/dir/a.c'' @ ''pp'')"
    using skip_rule_is_prefix_glob [OF mem] p by blast
  have s: "SkipListHandler ''-/dir/a.c'' = gen_regex [''-/dir/a.c'']"
    by (simp add: SkipListHandler_def check_line_format_def valid_skip_line_def
        skip_file_lines_def splitlines_def strip_def isspace_def py_whitespace_def
        line_boundaries_def)
  have "should_skip (SkipListHandler ''-/dir/a.c'') ''/dir/a.cpp''"
    using m unfolding s g by (simp add: should_skip_def)
  then show ?thesis using mem p m by simp
qed

end
